theory Spec2Isabelle
  imports
    Complex_Main
    "HOL-Library.Char_ord"
    "HOL-Library.List_Lexorder"
    "HOL-Library.Product_Lexorder"
    "HOL-Library.Multiset"
begin

section \<open>Data model\<close>

text \<open>
  The programs work on pandas data frames read from CSV files. A frame is modelled as
  the list of its rows, a row as a record of its columns.

  A \<^verbatim>\<open>datetime64\<close> value is a day number (days since 1970-01-01); the CSV files hold
  dates without a time of day. A missing date (\<^verbatim>\<open>NaT\<close>) is \<open>None\<close>.
  \<^verbatim>\<open>.dt.year\<close> and \<^verbatim>\<open>.dt.month\<close> read the calendar components of the proleptic
  Gregorian calendar, computed here by the usual era-based conversion.

  Identifiers, genres, costs and revenues are taken as present in every input row
  (the generators of the repository always write them); the columns that the code
  itself tests for missing values (the dates in \<^verbatim>\<open>compute_ltv\<close>, \<^verbatim>\<open>attributed_show_id\<close>)
  and the columns that a left join fills with missing values are optional.

  Money is a float column in pandas. It is modelled by exact rationals; the special
  values of a float that the divisions of the aggregation can produce are kept.
\<close>

type_synonym timestamp = int

definition days_from_civil :: "int \<Rightarrow> int \<Rightarrow> int \<Rightarrow> timestamp" where
  "days_from_civil y m d =
     (let y' = (if m \<le> 2 then y - 1 else y);
          era = y' div 400;
          yoe = y' - era * 400;
          doy = (153 * (if m > 2 then m - 3 else m + 9) + 2) div 5 + d - 1;
          doe = yoe * 365 + yoe div 4 - yoe div 100 + doy
      in era * 146097 + doe - 719468)"

text \<open>
  The calendar components of a day number: the day within its 400-year era, the year
  within the era, the day within the year (a year that starts on 1 March), and from
  these the month and the year.
\<close>

definition civil_era :: "timestamp \<Rightarrow> int" where
  "civil_era z = (z + 719468) div 146097"

definition civil_doe :: "timestamp \<Rightarrow> int" where
  "civil_doe z = (z + 719468) - civil_era z * 146097"

definition yoe_of_doe :: "int \<Rightarrow> int" where
  "yoe_of_doe doe = (doe - doe div 1460 + doe div 36524 - doe div 146096) div 365"

definition doy_of :: "int \<Rightarrow> int \<Rightarrow> int" where
  "doy_of doe yoe = doe - (365 * yoe + yoe div 4 - yoe div 100)"

definition civil_mp :: "timestamp \<Rightarrow> int" where
  "civil_mp z = (5 * doy_of (civil_doe z) (yoe_of_doe (civil_doe z)) + 2) div 153"

definition month_of_mp :: "int \<Rightarrow> int" where
  "month_of_mp mp = (if mp < 10 then mp + 3 else mp - 9)"

definition dt_month :: "timestamp \<Rightarrow> int" where
  "dt_month z = month_of_mp (civil_mp z)"

definition dt_year :: "timestamp \<Rightarrow> int" where
  "dt_year z = yoe_of_doe (civil_doe z) + civil_era z * 400
                 + (if dt_month z \<le> 2 then 1 else 0)"

text \<open>Comparisons with \<^verbatim>\<open>NaT\<close> are false; \<^verbatim>\<open>NaT\<close> plus a duration is \<^verbatim>\<open>NaT\<close>.\<close>

definition ts_ge :: "timestamp option \<Rightarrow> timestamp option \<Rightarrow> bool" where
  "ts_ge a b = (case (a, b) of (Some x, Some y) \<Rightarrow> x \<ge> y | _ \<Rightarrow> False)"

definition ts_le :: "timestamp option \<Rightarrow> timestamp option \<Rightarrow> bool" where
  "ts_le a b = (case (a, b) of (Some x, Some y) \<Rightarrow> x \<le> y | _ \<Rightarrow> False)"

definition ts_add_days :: "timestamp option \<Rightarrow> int \<Rightarrow> timestamp option" where
  "ts_add_days t n = map_option (\<lambda>d. d + n) t"

text \<open>
  \<^verbatim>\<open>sort_values\<close> puts missing values last (\<^verbatim>\<open>na_position='last'\<close>): the sort key of a
  date orders every present date before \<^verbatim>\<open>NaT\<close>. Both sorts of the program are
  modelled by the stable sort \<^const>\<open>sort_key\<close> (insertion sort). The sort on the two
  columns \<^verbatim>\<open>user_id\<close> and \<^verbatim>\<open>release_date\<close> is stable in pandas. The sort of the catalog
  on the one column \<^verbatim>\<open>release_date\<close> runs with the default \<^verbatim>\<open>kind='quicksort'\<close>, which the
  library does not promise to be stable: it returns the rows sorted, in some order of the
  rows of equal date. A stable sort leaves a sorted list as it is, so the program run on
  a catalog is the model run on that catalog in the order the library's sort gives it;
  a property proved for every order of the catalog rows does not depend on the stability,
  while the choice between shows released on the same day does.
\<close>

definition ts_key :: "timestamp option \<Rightarrow> nat \<times> int" where
  "ts_key t = (case t of None \<Rightarrow> (1, 0) | Some d \<Rightarrow> (0, d))"

record content_row =
  show_id :: string
  title :: string
  genre :: string
  release_date :: "timestamp option"
  production_cost :: rat

record user_row =
  user_id :: string
  sign_up_date :: "timestamp option"
  last_active_date :: "timestamp option"
  monthly_revenue :: rat
  attributed_show_id :: "string option"

section \<open>attribution.py\<close>


record content_small_row =
  cs_show_id :: string
  cs_release_date :: "timestamp option"
  window_start :: "timestamp option"
  window_end :: "timestamp option"

record merged_row =
  m_user_id :: string
  m_sign_up_date :: "timestamp option"
  m_show_id :: string
  m_release_date :: "timestamp option"
  m_window_start :: "timestamp option"
  m_window_end :: "timestamp option"

text \<open>
  \<^verbatim>\<open>content_small\<close>: the columns \<^verbatim>\<open>show_id\<close> and \<^verbatim>\<open>release_date\<close> of the catalog, sorted
  by \<^verbatim>\<open>release_date\<close>, with the two window columns added.
\<close>

definition with_window :: "int \<Rightarrow> content_row \<Rightarrow> content_small_row" where
  "with_window window_days c =
     \<lparr>cs_show_id = show_id c, cs_release_date = release_date c,
      window_start = release_date c,
      window_end = ts_add_days (release_date c) window_days\<rparr>"

definition content_small_of :: "content_row list \<Rightarrow> int \<Rightarrow> content_small_row list" where
  "content_small_of content window_days =
     map (with_window window_days) (sort_key (\<lambda>c. ts_key (release_date c)) content)"

text \<open>
  The merge on the constant column \<^verbatim>\<open>key\<close> is a cross join: every user row with every
  row of \<^verbatim>\<open>content_small\<close>, in the order of the left frame, then of the right frame.
\<close>

definition merge_row :: "user_row \<Rightarrow> content_small_row \<Rightarrow> merged_row" where
  "merge_row u s =
     \<lparr>m_user_id = user_id u, m_sign_up_date = sign_up_date u,
      m_show_id = cs_show_id s, m_release_date = cs_release_date s,
      m_window_start = window_start s, m_window_end = window_end s\<rparr>"

definition cross_merge :: "user_row list \<Rightarrow> content_small_row list \<Rightarrow> merged_row list" where
  "cross_merge users_exp content_small =
     concat (map (\<lambda>u. map (merge_row u) content_small) users_exp)"

definition cond :: "merged_row \<Rightarrow> bool" where
  "cond r \<longleftrightarrow> ts_ge (m_sign_up_date r) (m_release_date r)
              \<and> ts_le (m_sign_up_date r) (m_window_end r)"

text \<open>
  \<^verbatim>\<open>groupby('user_id').last()[['user_id', 'show_id']]\<close>: one row per user id, in the
  order of the ids, holding the \<^verbatim>\<open>show_id\<close> of the last row of the group (the last
  value that is not missing, and a \<^verbatim>\<open>show_id\<close> never is).
\<close>

definition groupby_last :: "merged_row list \<Rightarrow> (string \<times> string) list" where
  "groupby_last rows =
     map (\<lambda>k. (k, m_show_id (last (filter (\<lambda>r. m_user_id r = k) rows))))
         (sort (remdups (map m_user_id rows)))"

text \<open>
  \<^verbatim>\<open>assign_last_touch\<close>. A ledger without the column \<^verbatim>\<open>attributed_show_id\<close> is a ledger
  whose column holds \<open>None\<close> everywhere: the code adds the column so before it reads it.
  The left merge with \<^verbatim>\<open>last_touch\<close>, whose user ids are distinct, keeps the rows of
  the ledger in place and looks the user id up.
\<close>

definition assign_last_touch :: "content_row list \<Rightarrow> user_row list \<Rightarrow> int \<Rightarrow> user_row list" where
  "assign_last_touch content users window_days =
     (let content_small = content_small_of content window_days;
          merged = filter cond (cross_merge users content_small)
      in if merged = [] then map (\<lambda>u. u\<lparr>attributed_show_id := None\<rparr>) users
         else
           let merged_sorted = sort_key (\<lambda>r. (m_user_id r, ts_key (m_release_date r))) merged;
               last_touch = groupby_last merged_sorted
           in map (\<lambda>u. u\<lparr>attributed_show_id :=
                           (case map_of last_touch (user_id u) of
                              Some s \<Rightarrow> Some s
                            | None \<Rightarrow> attributed_show_id u)\<rparr>) users)"

section \<open>analysis_and_plots.py\<close>

text \<open>
  A float is an exact rational or one of the special values; rounding is left out.
  Division and subtraction follow IEEE 754 on the special values: a nonzero number
  divided by zero is an infinity, zero divided by zero is \<^verbatim>\<open>NaN\<close>, and \<^verbatim>\<open>NaN\<close>
  propagates. pandas uses \<^verbatim>\<open>NaN\<close> as its marker of a missing number. The sign of a
  zero is not modelled: a zero is the positive zero.
\<close>

datatype fval = Num rat | PInf | NInf | NaN

fun fdiv :: "fval \<Rightarrow> fval \<Rightarrow> fval" where
  "fdiv NaN y = NaN"
| "fdiv x NaN = NaN"
| "fdiv (Num a) (Num b) =
     (if b \<noteq> 0 then Num (a / b)
      else if a > 0 then PInf else if a < 0 then NInf else NaN)"
| "fdiv (Num a) y = Num 0"
| "fdiv PInf (Num b) = (if b \<ge> 0 then PInf else NInf)"
| "fdiv NInf (Num b) = (if b \<ge> 0 then NInf else PInf)"
| "fdiv x y = NaN"

fun fsub :: "fval \<Rightarrow> fval \<Rightarrow> fval" where
  "fsub NaN y = NaN"
| "fsub x NaN = NaN"
| "fsub (Num a) (Num b) = Num (a - b)"
| "fsub (Num a) PInf = NInf"
| "fsub (Num a) NInf = PInf"
| "fsub PInf PInf = NaN"
| "fsub NInf NInf = NaN"
| "fsub PInf y = PInf"
| "fsub NInf y = NInf"

definition float_col :: "rat option \<Rightarrow> fval" where
  "float_col v = (case v of None \<Rightarrow> NaN | Some x \<Rightarrow> Num x)"

fun dropna :: "'a option list \<Rightarrow> 'a list" where
  "dropna [] = []"
| "dropna (None # xs) = dropna xs"
| "dropna (Some x # xs) = x # dropna xs"

subsection \<open>compute_ltv\<close>

record ltv_row = user_row +
  lifetime_months :: int
  ltv :: rat

text \<open>
  The month difference of a row is missing when one of its dates is; \<^verbatim>\<open>fillna(0)\<close>
  turns a missing difference into 0.
\<close>

definition month_diff :: "user_row \<Rightarrow> int option" where
  "month_diff u =
     (case (last_active_date u, sign_up_date u) of
        (Some b, Some a) \<Rightarrow> Some ((dt_year b - dt_year a) * 12 + (dt_month b - dt_month a))
      | _ \<Rightarrow> None)"

definition fillna0 :: "int option \<Rightarrow> int" where
  "fillna0 v = (case v of None \<Rightarrow> 0 | Some d \<Rightarrow> d)"

definition ltv_columns :: "user_row \<Rightarrow> ltv_row" where
  "ltv_columns u =
     (let diff = fillna0 (month_diff u);
          lifetime_months = max 1 diff
      in \<lparr>user_id = user_id u, sign_up_date = sign_up_date u,
          last_active_date = last_active_date u, monthly_revenue = monthly_revenue u,
          attributed_show_id = attributed_show_id u,
          lifetime_months = lifetime_months,
          ltv = monthly_revenue u * of_int lifetime_months\<rparr>)"

definition compute_ltv :: "user_row list \<Rightarrow> ltv_row list" where
  "compute_ltv users = map ltv_columns users"

subsection \<open>The joins and the roll-ups of main\<close>

text \<open>
  A left merge on \<^verbatim>\<open>show_id\<close>: each row of the left frame, in order, once per catalog
  row with its key, in catalog order; a left row whose key is missing or matches no
  catalog row is kept once, with the catalog columns missing.
\<close>

definition left_merge :: "('l \<Rightarrow> string option) \<Rightarrow> ('l \<Rightarrow> content_row option \<Rightarrow> 'r) \<Rightarrow>
    'l list \<Rightarrow> content_row list \<Rightarrow> 'r list" where
  "left_merge left_on mk left content =
     concat (map (\<lambda>l. let ms = filter (\<lambda>c. left_on l = Some (show_id c)) content
                      in if ms = [] then [mk l None] else map (\<lambda>c. mk l (Some c)) ms) left)"

record enriched_row = ltv_row +
  e_show_id :: "string option"
  e_genre :: "string option"
  e_production_cost :: "rat option"

definition enriched_columns :: "ltv_row \<Rightarrow> content_row option \<Rightarrow> enriched_row" where
  "enriched_columns u c =
     \<lparr>user_id = user_id u, sign_up_date = sign_up_date u,
      last_active_date = last_active_date u, monthly_revenue = monthly_revenue u,
      attributed_show_id = attributed_show_id u,
      lifetime_months = lifetime_months u, ltv = ltv u,
      e_show_id = map_option show_id c, e_genre = map_option genre c,
      e_production_cost = map_option production_cost c\<rparr>"

definition enriched_of :: "ltv_row list \<Rightarrow> content_row list \<Rightarrow> enriched_row list" where
  "enriched_of users content = left_merge attributed_show_id enriched_columns users content"

text \<open>
  \<^verbatim>\<open>groupby('attributed_show_id')\<close> drops the rows whose key is missing and orders the
  groups by key; \<^verbatim>\<open>count\<close> counts the user ids of a group, \<^verbatim>\<open>sum\<close> adds its LTVs.
\<close>

record show_agg_row =
  sa_attributed_show_id :: string
  sa_attributed_users :: int
  sa_total_revenue :: rat

definition groupby_show :: "enriched_row list \<Rightarrow> show_agg_row list" where
  "groupby_show enriched =
     map (\<lambda>k. let grp = filter (\<lambda>e. attributed_show_id e = Some k) enriched
              in \<lparr>sa_attributed_show_id = k,
                  sa_attributed_users = int (length grp),
                  sa_total_revenue = sum_list (map ltv grp)\<rparr>)
         (sort (remdups (dropna (map attributed_show_id enriched))))"

record show_rev_row =
  sr_attributed_show_id :: string
  attributed_users :: int
  total_revenue :: rat
  sr_show_id :: "string option"
  sr_genre :: "string option"
  sr_production_cost :: "rat option"

record show_roi_row = show_rev_row +
  sr_title :: "string option"
  roi :: fval

text \<open>The per-show table of \<^verbatim>\<open>main\<close>, with the title and the ROI.\<close>

definition show_roi_columns :: "show_agg_row \<Rightarrow> content_row option \<Rightarrow> show_roi_row" where
  "show_roi_columns a c =
     (let cost = map_option production_cost c
      in \<lparr>sr_attributed_show_id = sa_attributed_show_id a,
          attributed_users = sa_attributed_users a,
          total_revenue = sa_total_revenue a,
          sr_show_id = map_option show_id c, sr_genre = map_option genre c,
          sr_production_cost = cost,
          sr_title = map_option title c,
          roi = fdiv (fsub (Num (sa_total_revenue a)) (float_col cost)) (float_col cost)\<rparr>)"

definition show_rev_of :: "ltv_row list \<Rightarrow> content_row list \<Rightarrow> show_roi_row list" where
  "show_rev_of users content =
     (let enriched = enriched_of users content;
          show_rev = groupby_show enriched
      in left_merge (\<lambda>a. Some (sa_attributed_show_id a)) show_roi_columns show_rev content)"

text \<open>
  The genre table: \<^verbatim>\<open>groupby('genre')\<close> over the per-show table, the sums of a group (a
  sum skips missing values), and the three ratios. \<^verbatim>\<open>replace(0, np.nan)\<close> guards the
  user count; nothing guards the cost.
\<close>

record genre_fin_row =
  g_genre :: string
  g_total_revenue :: rat
  total_prod_cost :: rat
  total_attributed_users :: int
  cac_per_user :: fval
  ltv_per_user :: fval
  ltv_to_cac :: fval

definition replace0nan :: "int \<Rightarrow> fval" where
  "replace0nan n = (if n = 0 then NaN else Num (of_int n))"

definition genre_fin_of :: "'a show_rev_row_scheme list \<Rightarrow> genre_fin_row list" where
  "genre_fin_of show_rev =
     map (\<lambda>g. let grp = filter (\<lambda>r. sr_genre r = Some g) show_rev;
                  total_revenue = sum_list (map total_revenue grp);
                  total_prod_cost = sum_list (dropna (map sr_production_cost grp));
                  total_attributed_users = sum_list (map attributed_users grp);
                  cac_per_user = fdiv (Num total_prod_cost) (replace0nan total_attributed_users);
                  ltv_per_user = fdiv (Num total_revenue) (replace0nan total_attributed_users)
              in \<lparr>g_genre = g, g_total_revenue = total_revenue,
                  total_prod_cost = total_prod_cost,
                  total_attributed_users = total_attributed_users,
                  cac_per_user = cac_per_user, ltv_per_user = ltv_per_user,
                  ltv_to_cac = fdiv ltv_per_user cac_per_user\<rparr>)
         (sort (remdups (dropna (map sr_genre show_rev))))"

text \<open>
  \<^verbatim>\<open>main\<close> without its printing and plotting: the ledger with its LTV columns, the
  per-show table and the genre table.
\<close>

definition analysis_main :: "content_row list \<Rightarrow> user_row list \<Rightarrow>
    ltv_row list \<times> show_roi_row list \<times> genre_fin_row list" where
  "analysis_main content users0 =
     (let users = compute_ltv users0;
          show_rev = show_rev_of users content;
          genre_fin = genre_fin_of show_rev
      in (users, show_rev, genre_fin))"

section \<open>sensitivity_analysis.py\<close>

text \<open>
  \<^verbatim>\<open>compute_genre_metrics\<close> repeats the LTV computation and the roll-ups of
  \<^verbatim>\<open>analysis_and_plots.py\<close> in its own code, without the title and the ROI.
\<close>

definition show_rev_columns :: "show_agg_row \<Rightarrow> content_row option \<Rightarrow> show_rev_row" where
  "show_rev_columns a c =
     \<lparr>sr_attributed_show_id = sa_attributed_show_id a,
      attributed_users = sa_attributed_users a,
      total_revenue = sa_total_revenue a,
      sr_show_id = map_option show_id c, sr_genre = map_option genre c,
      sr_production_cost = map_option production_cost c\<rparr>"

definition compute_genre_metrics :: "user_row list \<Rightarrow> content_row list \<Rightarrow> genre_fin_row list" where
  "compute_genre_metrics users0 content =
     (let users = map (\<lambda>u. let diff = fillna0 (month_diff u);
                               lifetime_months = max 1 diff
                           in \<lparr>user_id = user_id u, sign_up_date = sign_up_date u,
                               last_active_date = last_active_date u,
                               monthly_revenue = monthly_revenue u,
                               attributed_show_id = attributed_show_id u,
                               lifetime_months = lifetime_months,
                               ltv = monthly_revenue u * of_int lifetime_months\<rparr>) users0;
          enriched = left_merge attributed_show_id enriched_columns users content;
          show_rev = groupby_show enriched;
          show_rev = left_merge (\<lambda>a. Some (sa_attributed_show_id a)) show_rev_columns
                       show_rev content
      in genre_fin_of show_rev)"

record sweep_row =
  window :: int
  sw_genre :: string
  sw_ltv_to_cac :: fval

text \<open>The rows that one window adds: one for each of the two genres, in this order.\<close>

definition sweep_rows :: "int \<Rightarrow> genre_fin_row list \<Rightarrow> sweep_row list" where
  "sweep_rows w genre_fin =
     map (\<lambda>g. let val = filter (\<lambda>r. g_genre r = g) genre_fin
              in if val = [] then \<lparr>window = w, sw_genre = g, sw_ltv_to_cac = NaN\<rparr>
                 else \<lparr>window = w, sw_genre = g, sw_ltv_to_cac = ltv_to_cac (hd val)\<rparr>)
         [''Sci-Fi'', ''Comedy'']"

text \<open>
  The loop of \<^verbatim>\<open>main\<close> over the windows. Its state is the frame \<^verbatim>\<open>users\<close> and the list
  \<^verbatim>\<open>rows\<close>. Each round hands \<^verbatim>\<open>users.copy()\<close> to \<^verbatim>\<open>assign_last_touch\<close>, so what that
  function writes into its argument reaches the copy, and \<^verbatim>\<open>users\<close> goes unchanged into
  the next round.
\<close>

fun sweep_loop :: "content_row list \<Rightarrow> user_row list \<Rightarrow> int list \<Rightarrow> sweep_row list \<Rightarrow>
    user_row list \<times> sweep_row list" where
  "sweep_loop content users [] rows = (users, rows)"
| "sweep_loop content users (w # ws) rows =
     (let users_copy = users;
          attributed = assign_last_touch content users_copy w;
          genre_fin = compute_genre_metrics attributed content
      in sweep_loop content users ws (rows @ sweep_rows w genre_fin))"

definition windows :: "int list" where
  "windows = [3, 7, 14]"

definition sensitivity_main :: "content_row list \<Rightarrow> user_row list \<Rightarrow> sweep_row list" where
  "sensitivity_main content users = snd (sweep_loop content users windows [])"

section \<open>Notions used by the properties\<close>

text \<open>
  A catalog row is eligible for a user row under a window when the filter \<^const>\<open>cond\<close>
  keeps the merged row of the two (lemma \<open>cond_merge_row\<close> below).
\<close>

definition eligible :: "int \<Rightarrow> user_row \<Rightarrow> content_row \<Rightarrow> bool" where
  "eligible window_days u c \<longleftrightarrow>
     ts_ge (sign_up_date u) (release_date c)
     \<and> ts_le (sign_up_date u) (ts_add_days (release_date c) window_days)"

definition merged_of :: "content_row list \<Rightarrow> user_row list \<Rightarrow> int \<Rightarrow> merged_row list" where
  "merged_of content users window_days =
     filter cond (cross_merge users (content_small_of content window_days))"

text \<open>
  The eligible catalog rows of a user whose release date is the latest among the
  eligible ones, in catalog order.
\<close>

definition last_touch_candidates :: "int \<Rightarrow> user_row \<Rightarrow> content_row list \<Rightarrow> content_row list" where
  "last_touch_candidates w u content =
     filter (\<lambda>c. eligible w u c
                \<and> (\<forall>c'\<in>set content. eligible w u c' \<longrightarrow> ts_le (release_date c') (release_date c)))
            content"

text \<open>Some user of the ledger has an eligible row; some row with the user id \<open>k\<close> has one.\<close>

definition any_match :: "int \<Rightarrow> user_row list \<Rightarrow> content_row list \<Rightarrow> bool" where
  "any_match w users content \<longleftrightarrow> (\<exists>u\<in>set users. \<exists>c\<in>set content. eligible w u c)"

definition has_match :: "int \<Rightarrow> user_row list \<Rightarrow> content_row list \<Rightarrow> string \<Rightarrow> bool" where
  "has_match w users content k \<longleftrightarrow>
     (\<exists>u\<in>set users. user_id u = k \<and> (\<exists>c\<in>set content. eligible w u c))"


text \<open>Rows for the examples: a show released on a day, a user with both dates present.\<close>

definition ex_show :: "string \<Rightarrow> timestamp \<Rightarrow> rat \<Rightarrow> string \<Rightarrow> content_row" where
  "ex_show sid d cost g =
     \<lparr>show_id = sid, title = [], genre = g, release_date = Some d, production_cost = cost\<rparr>"

definition ex_user :: "string \<Rightarrow> timestamp \<Rightarrow> timestamp \<Rightarrow> rat \<Rightarrow> string option \<Rightarrow> user_row" where
  "ex_user uid s l revenue a =
     \<lparr>user_id = uid, sign_up_date = Some s, last_active_date = Some l,
      monthly_revenue = revenue, attributed_show_id = a\<rparr>"

lemmas date_defs =
  days_from_civil_def civil_era_def civil_doe_def yoe_of_doe_def doy_of_def
  civil_mp_def month_of_mp_def dt_month_def dt_year_def

lemmas attribution_defs =
  assign_last_touch_def content_small_of_def with_window_def cross_merge_def merge_row_def
  cond_def ts_ge_def ts_le_def ts_add_days_def ts_key_def groupby_last_def
  ex_show_def ex_user_def

lemmas ltv_defs = compute_ltv_def ltv_columns_def month_diff_def fillna0_def

lemmas show_rev_defs =
  show_rev_of_def enriched_of_def left_merge_def enriched_columns_def groupby_show_def
  show_roi_columns_def float_col_def

section \<open>The last row of a stable sort\<close>

text \<open>
  The last element of a list sorted by a key has the greatest key, and a stable sort
  keeps the elements of the greatest key in their order: the last element after the sort
  is the last one of greatest key before it.
\<close>

lemma last_filter_self: "xs \<noteq> [] \<Longrightarrow> P (last xs) \<Longrightarrow> last (filter P xs) = last xs"
  by (induction xs) (auto simp: filter_empty_conv)

lemma sorted_le_last: "sorted zs \<Longrightarrow> z \<in> set zs \<Longrightarrow> z \<le> last zs"
  by (induction zs) (auto split: if_splits)

lemma sort_key_last_max:
  assumes "y \<in> set xs"
  shows "f y \<le> f (last (sort_key f xs))"
proof -
  let ?ys = "sort_key f xs"
  have ne: "?ys \<noteq> []" using assms by (metis empty_iff empty_set set_sort)
  have "sorted (map f ?ys)" by (rule sorted_sort_key)
  moreover have "f y \<in> set (map f ?ys)" using assms by simp
  ultimately have "f y \<le> last (map f ?ys)" by (rule sorted_le_last)
  then show ?thesis using ne by (simp add: last_map)
qed

lemma filter_max_sort_key:
  "filter (\<lambda>x. \<forall>y\<in>set xs. f y \<le> f x) (sort_key f xs) = filter (\<lambda>x. \<forall>y\<in>set xs. f y \<le> f x) xs"
proof (cases "xs = []")
  case True then show ?thesis by simp
next
  case False
  let ?l = "last (sort_key f xs)"
  have lin: "?l \<in> set xs" using False by (metis last_in_set set_sort empty_set empty_iff)
  have eq: "(\<forall>y\<in>set xs. f y \<le> f x) \<longleftrightarrow> f x = f ?l" if "x \<in> set xs" for x
  proof
    assume a: "\<forall>y\<in>set xs. f y \<le> f x"
    then have "f ?l \<le> f x" using lin by blast
    moreover have "f x \<le> f ?l" using that by (rule sort_key_last_max)
    ultimately show "f x = f ?l" by simp
  next
    assume "f x = f ?l"
    then show "\<forall>y\<in>set xs. f y \<le> f x" by (simp add: sort_key_last_max)
  qed
  have "filter (\<lambda>x. \<forall>y\<in>set xs. f y \<le> f x) (sort_key f xs) = filter (\<lambda>x. f x = f ?l) (sort_key f xs)"
    by (rule filter_cong) (simp_all add: eq)
  also have "\<dots> = filter (\<lambda>x. f x = f ?l) xs" by (rule sort_key_stable)
  also have "\<dots> = filter (\<lambda>x. \<forall>y\<in>set xs. f y \<le> f x) xs"
    by (rule filter_cong) (simp_all add: eq)
  finally show ?thesis .
qed

lemma last_sort_key:
  assumes "xs \<noteq> []"
  shows "last (sort_key f xs) = last (filter (\<lambda>x. \<forall>y\<in>set xs. f y \<le> f x) xs)"
proof -
  let ?ys = "sort_key f xs"
  have ne: "?ys \<noteq> []" using assms by (metis length_0_conv length_sort)
  have "\<forall>y\<in>set xs. f y \<le> f (last ?ys)" by (simp add: sort_key_last_max)
  then have "last (filter (\<lambda>x. \<forall>y\<in>set xs. f y \<le> f x) ?ys) = last ?ys"
    using ne by (intro last_filter_self) simp_all
  then show ?thesis by (simp add: filter_max_sort_key)
qed

section \<open>The merged frame and the group of a user\<close>

lemma cond_merge_row: "cond (merge_row u (with_window w c)) = eligible w u c"
  by (simp add: cond_def merge_row_def with_window_def eligible_def)

text \<open>
  On a catalog that is already sorted by release date, the sort of the catalog changes
  nothing.
\<close>

lemma content_small_of_sorted:
  "sorted (map (\<lambda>c. ts_key (release_date c)) content) \<Longrightarrow>
     content_small_of content w = map (with_window w) content"
  by (simp add: content_small_of_def sort_key_id_if_sorted)

lemma assign_last_touch_unfold:
  "assign_last_touch content users w =
     (if merged_of content users w = [] then map (\<lambda>u. u\<lparr>attributed_show_id := None\<rparr>) users
      else map (\<lambda>u. u\<lparr>attributed_show_id :=
              (case map_of (groupby_last (sort_key (\<lambda>r. (m_user_id r, ts_key (m_release_date r)))
                                (merged_of content users w))) (user_id u) of
                 Some s \<Rightarrow> Some s | None \<Rightarrow> attributed_show_id u)\<rparr>) users)"
  by (simp add: assign_last_touch_def merged_of_def Let_def)

lemma set_merged_of:
  "set (merged_of content users w) =
     {merge_row u (with_window w c) | u c. u \<in> set users \<and> c \<in> set content \<and> eligible w u c}"
  by (auto simp: merged_of_def cross_merge_def content_small_of_def cond_merge_row) blast

lemma map_of_groupby_last:
  "map_of (groupby_last rows) k =
     (if k \<in> m_user_id ` set rows
      then Some (m_show_id (last (filter (\<lambda>r. m_user_id r = k) rows))) else None)"
  by (simp add: groupby_last_def map_of_map_restrict restrict_map_def)

lemma filter_user_cross:
  assumes "distinct (map user_id users)" "u \<in> set users"
  shows "filter (\<lambda>r. m_user_id r = user_id u) (filter cond (cross_merge users cs))
         = map (merge_row u) (filter (\<lambda>s. cond (merge_row u s)) cs)"
  using assms
proof (induction users)
  case Nil then show ?case by simp
next
  case (Cons a users)
  have other: "filter (\<lambda>r. cond r \<and> m_user_id r = k) (map (merge_row v) cs) = []"
    if "user_id v \<noteq> k" for v k
    using that by (simp add: filter_empty_conv merge_row_def)
  have same: "filter (\<lambda>r. cond r \<and> m_user_id r = user_id v) (map (merge_row v) cs)
      = map (merge_row v) (filter (\<lambda>s. cond (merge_row v s)) cs)" for v
    by (induction cs) (auto simp: merge_row_def)
  have none: "filter (\<lambda>r. cond r \<and> m_user_id r = k) (cross_merge us cs) = []"
    if "k \<notin> user_id ` set us" for us k
    using that by (auto simp: cross_merge_def filter_empty_conv merge_row_def)
  show ?case
  proof (cases "u = a")
    case True
    then have "user_id u \<notin> user_id ` set users" using Cons.prems by auto
    then show ?thesis using True same[of a] none[of "user_id a" users]
      by (simp add: cross_merge_def)
  next
    case False
    then have "u \<in> set users" "user_id a \<noteq> user_id u" using Cons.prems by auto
    then show ?thesis using Cons.IH Cons.prems other[of a "user_id u"]
      by (simp add: cross_merge_def)
  qed
qed

lemma eligible_release: "eligible w u c \<Longrightarrow> \<exists>d. release_date c = Some d"
  by (auto simp: eligible_def ts_ge_def split: option.splits)

lemma eligible_mono: "W \<le> W' \<Longrightarrow> eligible W u c \<Longrightarrow> eligible W' u c"
  by (auto simp: eligible_def ts_ge_def ts_le_def ts_add_days_def split: option.splits)

lemma candidates_alt:
  "last_touch_candidates w u content =
     filter (\<lambda>c. \<forall>c'\<in>set (filter (eligible w u) content).
                   ts_key (release_date c') \<le> ts_key (release_date c))
            (filter (eligible w u) content)"
proof -
  have "(eligible w u c \<and> (\<forall>c'\<in>set content. eligible w u c' \<longrightarrow> ts_le (release_date c') (release_date c)))
      = (eligible w u c \<and> (\<forall>c'\<in>set (filter (eligible w u) content).
                   ts_key (release_date c') \<le> ts_key (release_date c)))" for c
  proof (cases "eligible w u c")
    case True
    then obtain d where d: "release_date c = Some d" using eligible_release by blast
    have "ts_le (release_date c') (release_date c)
          = (ts_key (release_date c') \<le> ts_key (release_date c))" if el: "eligible w u c'" for c'
    proof -
      obtain d' where "release_date c' = Some d'" using el eligible_release by blast
      then show ?thesis using d by (simp add: ts_key_def ts_le_def)
    qed
    then show ?thesis using True by auto
  next
    case False then show ?thesis by simp
  qed
  then show ?thesis by (simp add: last_touch_candidates_def)
qed

lemma group_of_user:
  assumes "distinct (map user_id users)" "u \<in> set users"
  shows "filter (\<lambda>r. m_user_id r = user_id u) (merged_of content users w)
         = map (merge_row u \<circ> with_window w)
               (sort_key (\<lambda>c. ts_key (release_date c)) (filter (eligible w u) content))"
proof -
  have "filter (\<lambda>r. m_user_id r = user_id u) (merged_of content users w)
        = map (merge_row u) (filter (\<lambda>s. cond (merge_row u s)) (content_small_of content w))"
    unfolding merged_of_def using assms by (rule filter_user_cross)
  also have "\<dots> = map (merge_row u) (map (with_window w)
                  (filter (eligible w u) (sort_key (\<lambda>c. ts_key (release_date c)) content)))"
    by (simp add: content_small_of_def filter_map comp_def cond_merge_row)
  finally show ?thesis by (simp add: filter_sort)
qed

lemma last_group_of_user:
  assumes "distinct (map user_id users)" "u \<in> set users"
    and ne: "last_touch_candidates w u content \<noteq> []"
  shows "m_show_id (last (filter (\<lambda>r. m_user_id r = user_id u)
            (sort_key (\<lambda>r. (m_user_id r, ts_key (m_release_date r))) (merged_of content users w))))
         = show_id (last (last_touch_candidates w u content))"
proof -
  let ?F = "\<lambda>r. (m_user_id r, ts_key (m_release_date r))"
  let ?K = "\<lambda>c. ts_key (release_date c)"
  let ?g = "merge_row u \<circ> with_window w"
  let ?E = "filter (eligible w u) content"
  let ?S = "sort_key ?K ?E"
  let ?G = "map ?g ?S"
  have Fg: "?F (?g c) = (user_id u, ?K c)" for c
    by (simp add: merge_row_def with_window_def)
  have Ene: "?E \<noteq> []" using ne by (auto simp: last_touch_candidates_def filter_empty_conv)
  then have Sne: "?S \<noteq> []" by (metis length_0_conv length_sort)
  then have Gne: "?G \<noteq> []" by simp
  have grp: "filter (\<lambda>r. m_user_id r = user_id u) (sort_key ?F (merged_of content users w))
        = sort_key ?F ?G"
    using assms(1,2) by (simp add: filter_sort group_of_user)
  have "last (filter (\<lambda>r. m_user_id r = user_id u) (sort_key ?F (merged_of content users w)))
        = last (filter (\<lambda>x. \<forall>y\<in>set ?G. ?F y \<le> ?F x) ?G)"
    unfolding grp using Gne by (rule last_sort_key)
  also have "filter (\<lambda>x. \<forall>y\<in>set ?G. ?F y \<le> ?F x) ?G
        = map ?g (filter (\<lambda>c. \<forall>c'\<in>set ?E. ?K c' \<le> ?K c) ?S)"
    by (simp add: filter_map comp_def merge_row_def with_window_def)
  also have "filter (\<lambda>c. \<forall>c'\<in>set ?E. ?K c' \<le> ?K c) ?S = last_touch_candidates w u content"
    by (simp only: filter_max_sort_key candidates_alt)
  finally show ?thesis using ne by (simp add: last_map merge_row_def with_window_def)
qed

text \<open>
  With distinct user ids, a user with an eligible row is attributed the last of the
  latest eligible rows in catalog order.
\<close>

lemma assign_last_touch_pick:
  assumes d: "distinct (map user_id users)" and i: "i < length users"
    and ne: "last_touch_candidates w (users ! i) content \<noteq> []"
  shows "attributed_show_id (assign_last_touch content users w ! i)
         = Some (show_id (last (last_touch_candidates w (users ! i) content)))"
proof -
  let ?u = "users ! i"
  have u: "?u \<in> set users" using i by simp
  obtain c where c: "c \<in> set content" "eligible w ?u c"
    using ne by (auto simp: last_touch_candidates_def filter_empty_conv)
  have mem: "merge_row ?u (with_window w c) \<in> set (merged_of content users w)"
    using u c by (auto simp: set_merged_of)
  then have mne: "merged_of content users w \<noteq> []" by auto
  have "m_user_id (merge_row ?u (with_window w c)) = user_id ?u" by (simp add: merge_row_def)
  then have k: "user_id ?u \<in> m_user_id ` set (merged_of content users w)"
    using mem by (metis imageI)
  show ?thesis
    using i mne k last_group_of_user[OF d u ne]
    by (simp add: assign_last_touch_unfold map_of_groupby_last)
qed

text \<open>The attribution of the \<open>i\<close>-th ledger row, branch by branch.\<close>

lemma has_match_iff:
  "k \<in> m_user_id ` set (merged_of content users w) \<longleftrightarrow> has_match w users content k"
  unfolding has_match_def
  by (auto simp: set_merged_of merge_row_def image_iff) (metis merged_row.select_convs(1))

lemma merged_empty_iff:
  "merged_of content users w = [] \<longleftrightarrow> \<not> any_match w users content"
proof -
  have "merged_of content users w = [] \<longleftrightarrow> set (merged_of content users w) = {}" by simp
  also have "\<dots> \<longleftrightarrow> \<not> any_match w users content"
    unfolding set_merged_of any_match_def by blast
  finally show ?thesis .
qed

lemma has_match_any: "has_match w users content k \<Longrightarrow> any_match w users content"
  unfolding has_match_def any_match_def by blast

lemma any_match_mono: "W \<le> W' \<Longrightarrow> any_match W users content \<Longrightarrow> any_match W' users content"
  unfolding any_match_def using eligible_mono by blast

lemma has_match_mono: "W \<le> W' \<Longrightarrow> has_match W users content k \<Longrightarrow> has_match W' users content k"
  unfolding has_match_def using eligible_mono by blast

lemma assign_last_touch_nth:
  assumes "i < length users"
  shows "attributed_show_id (assign_last_touch content users w ! i) =
     (if \<not> any_match w users content then None
      else if has_match w users content (user_id (users ! i))
           then Some (m_show_id (last (filter (\<lambda>r. m_user_id r = user_id (users ! i))
                  (sort_key (\<lambda>r. (m_user_id r, ts_key (m_release_date r)))
                     (merged_of content users w)))))
           else attributed_show_id (users ! i))"
proof -
  have "map_of (groupby_last (sort_key (\<lambda>r. (m_user_id r, ts_key (m_release_date r)))
                 (merged_of content users w))) (user_id (users ! i))
      = (if has_match w users content (user_id (users ! i))
         then Some (m_show_id (last (filter (\<lambda>r. m_user_id r = user_id (users ! i))
                  (sort_key (\<lambda>r. (m_user_id r, ts_key (m_release_date r)))
                     (merged_of content users w)))))
         else None)"
    using has_match_iff[of "user_id (users ! i)" content users w]
    by (simp add: map_of_groupby_last)
  then show ?thesis using assms
    by (simp add: assign_last_touch_unfold merged_empty_iff)
qed

lemma candidates_unique_max:
  assumes c2: "c2 \<in> set content" "eligible w u c2"
    and mx: "\<forall>c\<in>set content. eligible w u c \<longrightarrow>
               c = c2 \<or> (ts_le (release_date c) (release_date c2) \<and> release_date c \<noteq> release_date c2)"
    and perm: "mset content' = mset content"
  shows "last_touch_candidates w u content' \<noteq> []
         \<and> last (last_touch_candidates w u content') = c2"
proof -
  have st: "set content' = set content" using perm by (metis set_mset_mset)
  obtain d2 where d2: "release_date c2 = Some d2" using c2(2) eligible_release by blast
  have "ts_le (release_date c) (release_date c2)" if "c \<in> set content" "eligible w u c" for c
    using that mx d2 by (cases "c = c2") (auto simp: ts_le_def)
  then have in2: "c2 \<in> set (last_touch_candidates w u content')"
    using c2 by (simp add: last_touch_candidates_def st)
  have all2: "c = c2" if "c \<in> set (last_touch_candidates w u content')" for c
  proof (rule ccontr)
    assume neq: "c \<noteq> c2"
    from that have c: "c \<in> set content" "eligible w u c"
      and le: "ts_le (release_date c2) (release_date c)"
      using c2 by (auto simp: last_touch_candidates_def st)
    from mx c neq have "ts_le (release_date c) (release_date c2)" "release_date c \<noteq> release_date c2"
      by auto
    with le show False by (auto simp: ts_le_def split: option.splits)
  qed
  have ne: "last_touch_candidates w u content' \<noteq> []" using in2 by auto
  then have "last (last_touch_candidates w u content') \<in> set (last_touch_candidates w u content')"
    by (rule last_in_set)
  then show ?thesis using ne all2 by blast
qed

section \<open>Attribution: the claims\<close>

text \<open>
  C1. Last-touch correctness. A user (of a ledger with distinct user ids) has an
  eligible catalog row \<open>c2\<close>, and every other eligible row is released strictly before
  \<open>c2\<close> (so with a second eligible row at R1 there are two, R1 < R2). Then
  \<^const>\<open>assign_last_touch\<close> gives the user the show of \<open>c2\<close>, in whatever order the
  catalog rows come: the result is the same for every catalog with the same rows.
\<close>

theorem last_touch_selects_latest:
  assumes "distinct (map user_id users)" and "i < length users"
    and "c2 \<in> set content" and "eligible w (users ! i) c2"
    and "\<forall>c\<in>set content. eligible w (users ! i) c \<longrightarrow>
           c = c2 \<or> (ts_le (release_date c) (release_date c2) \<and> release_date c \<noteq> release_date c2)"
    and "mset content' = mset content"
  shows "attributed_show_id (assign_last_touch content' users w ! i) = Some (show_id c2)"
  using candidates_unique_max[OF assms(3-6)] assign_last_touch_pick[OF assms(1,2), of w content']
  by simp

text \<open>
  An instance: shows released on days 10 and 12, a signup on day 13, a window of 7 days.
  Both rows are eligible, and the user gets the show of day 12 when the catalog lists it
  first as well as when it lists it last.
\<close>

theorem last_touch_selects_latest_witness:
  "eligible 7 (ex_user ''U1'' 13 13 10 None) (ex_show ''S1'' 10 100 ''Drama'')
   \<and> eligible 7 (ex_user ''U1'' 13 13 10 None) (ex_show ''S2'' 12 100 ''Drama'')
   \<and> attributed_show_id (assign_last_touch
         [ex_show ''S1'' 10 100 ''Drama'', ex_show ''S2'' 12 100 ''Drama'']
         [ex_user ''U1'' 13 13 10 None] 7 ! 0) = Some ''S2''
   \<and> attributed_show_id (assign_last_touch
         [ex_show ''S2'' 12 100 ''Drama'', ex_show ''S1'' 10 100 ''Drama'']
         [ex_user ''U1'' 13 13 10 None] 7 ! 0) = Some ''S2''"
proof -
  let ?u = "ex_user ''U1'' 13 13 10 None"
  let ?a = "ex_show ''S1'' 10 100 ''Drama''"
  let ?b = "ex_show ''S2'' 12 100 ''Drama''"
  have d: "distinct (map user_id [?u])" and i: "0 < length [?u]" by simp_all
  have mem: "?b \<in> set [?a, ?b]" by simp
  have ea: "eligible 7 ?u ?a" and eb: "eligible 7 ([?u] ! 0) ?b"
    by (simp_all add: eligible_def attribution_defs)
  have mx: "\<forall>c\<in>set [?a, ?b]. eligible 7 ([?u] ! 0) c \<longrightarrow>
      c = ?b \<or> (ts_le (release_date c) (release_date ?b) \<and> release_date c \<noteq> release_date ?b)"
    by (simp add: ts_le_def ex_show_def)
  have p1: "mset [?a, ?b] = mset [?a, ?b]" and p2: "mset [?b, ?a] = mset [?a, ?b]" by simp_all
  show ?thesis
    using last_touch_selects_latest[OF d i mem eb mx p1]
      last_touch_selects_latest[OF d i mem eb mx p2] ea eb
    by (simp add: ex_show_def)
qed

text \<open>
  C6. Window monotonicity: a ledger row that leaves \<^const>\<open>assign_last_touch\<close> with an
  attribution under the window \<open>W\<close> leaves it with one under every larger window, for
  the same catalog and the same ledger.
\<close>

theorem window_monotone:
  assumes "W < W'" and "i < length users"
    and "attributed_show_id (assign_last_touch content users W ! i) \<noteq> None"
  shows "attributed_show_id (assign_last_touch content users W' ! i) \<noteq> None"
proof -
  have le: "W \<le> W'" using assms(1) by simp
  have some: "any_match W users content"
    using assms(2,3) by (simp add: assign_last_touch_nth split: if_splits)
  have some': "any_match W' users content" using le some by (rule any_match_mono)
  show ?thesis
  proof (cases "has_match W' users content (user_id (users ! i))")
    case True
    then show ?thesis using assms(2) some' by (simp add: assign_last_touch_nth)
  next
    case False
    then have "\<not> has_match W users content (user_id (users ! i))"
      using has_match_mono[OF le] by blast
    then have "attributed_show_id (users ! i) \<noteq> None"
      using assms(2,3) some by (simp add: assign_last_touch_nth)
    then show ?thesis using assms(2) some' False by (simp add: assign_last_touch_nth)
  qed
qed

text \<open>
  An instance: a show released on day 10 and a signup on day 12 are matched under a
  window of 3 days, and under one of 7 days.
\<close>

theorem window_monotone_witness:
  "(3::int) < 7
   \<and> attributed_show_id (assign_last_touch [ex_show ''S1'' 10 100 ''Drama'']
         [ex_user ''U1'' 12 12 10 None] 3 ! 0) = Some ''S1''
   \<and> attributed_show_id (assign_last_touch [ex_show ''S1'' 10 100 ''Drama'']
         [ex_user ''U1'' 12 12 10 None] 7 ! 0) \<noteq> None"
proof -
  have h: "attributed_show_id (assign_last_touch [ex_show ''S1'' 10 100 ''Drama'']
         [ex_user ''U1'' 12 12 10 None] 3 ! 0) = Some ''S1''"
    by (simp add: attribution_defs Let_def)
  have "attributed_show_id (assign_last_touch [ex_show ''S1'' 10 100 ''Drama'']
         [ex_user ''U1'' 12 12 10 None] 7 ! 0) \<noteq> None"
    using h by (intro window_monotone[of 3 7 0]) simp_all
  then show ?thesis using h by simp
qed



text \<open>
  The coalescing branch of \<^const>\<open>assign_last_touch\<close>: when some user of the ledger has
  an eligible row, a user without one keeps the prior attribution.
\<close>

lemma prior_attribution_kept_with_some_match:
  assumes "i < length users" and "any_match w users content"
    and "\<not> has_match w users content (user_id (users ! i))"
  shows "attributed_show_id (assign_last_touch content users w ! i)
           = attributed_show_id (users ! i)"
  using assms by (simp add: assign_last_touch_nth)

text \<open>
  C2. Non-destructive fallback. When no user of the ledger has an eligible row, the
  early-return branch runs instead of the coalescing one, and it overwrites the column:
  a user who enters with the attribution \<open>S9\<close>, 48 days after the only release, has no
  eligible row under a window of 7 days and leaves with no attribution. The same user
  keeps \<open>S9\<close> as soon as another user of the ledger is matched.
\<close>

theorem prior_attribution_lost_without_match:
  "attributed_show_id (ex_user ''U1'' 60 60 10 (Some ''S9'')) = Some ''S9''
   \<and> \<not> eligible 7 (ex_user ''U1'' 60 60 10 (Some ''S9'')) (ex_show ''S1'' 12 100 ''Drama'')
   \<and> map attributed_show_id (assign_last_touch [ex_show ''S1'' 12 100 ''Drama'']
         [ex_user ''U1'' 60 60 10 (Some ''S9'')] 7) = [None]
   \<and> map attributed_show_id (assign_last_touch [ex_show ''S1'' 12 100 ''Drama'']
         [ex_user ''U1'' 60 60 10 (Some ''S9''), ex_user ''U2'' 13 13 10 None] 7)
       = [Some ''S9'', Some ''S1'']"
  by (simp add: eligible_def attribution_defs Let_def)

section \<open>LTV and aggregation: the claims\<close>



text \<open>
  The months are calendar months, not elapsed days: 29 days within January count as one
  month (the floor), and the 30 days from 31 January to 1 March count as two.
\<close>

lemma calendar_months_not_days:
  "map lifetime_months (compute_ltv
     [ex_user ''U1'' (days_from_civil 2024 1 1) (days_from_civil 2024 1 30) 10 None,
      ex_user ''U2'' (days_from_civil 2024 1 31) (days_from_civil 2024 3 1) 10 None]) = [1, 2]"
  by (simp add: ltv_defs Let_def ex_user_def date_defs)

text \<open>
  C9. The end-to-end example: one show \<open>S1\<close> released on 2024-01-01 with a cost of 1000
  (whatever its title), one user \<open>U1\<close> who signs up and is last active on 2024-01-03 with
  a revenue of 10 and no attribution, a window of 7 days. The resolver attributes \<open>S1\<close>,
  the LTV columns are 1 month and 10, and the per-show table has the one row of \<open>S1\<close>
  with one user, a revenue of 10, a cost of 1000 and an ROI of (10 - 1000) / 1000 = -0.99.
\<close>

theorem end_to_end_example:
  "assign_last_touch
      [\<lparr>show_id = ''S1'', title = t, genre = ''Drama'',
        release_date = Some (days_from_civil 2024 1 1), production_cost = 1000\<rparr>]
      [\<lparr>user_id = ''U1'', sign_up_date = Some (days_from_civil 2024 1 3),
        last_active_date = Some (days_from_civil 2024 1 3), monthly_revenue = 10,
        attributed_show_id = None\<rparr>] 7
     = [\<lparr>user_id = ''U1'', sign_up_date = Some (days_from_civil 2024 1 3),
         last_active_date = Some (days_from_civil 2024 1 3), monthly_revenue = 10,
         attributed_show_id = Some ''S1''\<rparr>]
   \<and> compute_ltv
        [\<lparr>user_id = ''U1'', sign_up_date = Some (days_from_civil 2024 1 3),
          last_active_date = Some (days_from_civil 2024 1 3), monthly_revenue = 10,
          attributed_show_id = Some ''S1''\<rparr>]
     = [\<lparr>user_id = ''U1'', sign_up_date = Some (days_from_civil 2024 1 3),
         last_active_date = Some (days_from_civil 2024 1 3), monthly_revenue = 10,
         attributed_show_id = Some ''S1'', lifetime_months = 1, ltv = 10\<rparr>]
   \<and> show_rev_of
        [\<lparr>user_id = ''U1'', sign_up_date = Some (days_from_civil 2024 1 3),
          last_active_date = Some (days_from_civil 2024 1 3), monthly_revenue = 10,
          attributed_show_id = Some ''S1'', lifetime_months = 1, ltv = 10\<rparr>]
        [\<lparr>show_id = ''S1'', title = t, genre = ''Drama'',
          release_date = Some (days_from_civil 2024 1 1), production_cost = 1000\<rparr>]
     = [\<lparr>sr_attributed_show_id = ''S1'', attributed_users = 1, total_revenue = 10,
         sr_show_id = Some ''S1'', sr_genre = Some ''Drama'',
         sr_production_cost = Some 1000, sr_title = Some t,
         roi = Num ((10 - 1000) / 1000)\<rparr>]
   \<and> Num ((10 - 1000) / 1000) = Num (- 99 / 100)"
proof -
  have resolver: "assign_last_touch
      [\<lparr>show_id = ''S1'', title = t, genre = ''Drama'',
        release_date = Some (days_from_civil 2024 1 1), production_cost = 1000\<rparr>]
      [\<lparr>user_id = ''U1'', sign_up_date = Some (days_from_civil 2024 1 3),
        last_active_date = Some (days_from_civil 2024 1 3), monthly_revenue = 10,
        attributed_show_id = None\<rparr>] 7
     = [\<lparr>user_id = ''U1'', sign_up_date = Some (days_from_civil 2024 1 3),
         last_active_date = Some (days_from_civil 2024 1 3), monthly_revenue = 10,
         attributed_show_id = Some ''S1''\<rparr>]"
    by (simp add: attribution_defs Let_def days_from_civil_def)
  have calculator: "compute_ltv
        [\<lparr>user_id = ''U1'', sign_up_date = Some (days_from_civil 2024 1 3),
          last_active_date = Some (days_from_civil 2024 1 3), monthly_revenue = 10,
          attributed_show_id = Some ''S1''\<rparr>]
     = [\<lparr>user_id = ''U1'', sign_up_date = Some (days_from_civil 2024 1 3),
         last_active_date = Some (days_from_civil 2024 1 3), monthly_revenue = 10,
         attributed_show_id = Some ''S1'', lifetime_months = 1, ltv = 10\<rparr>]"
    by (simp add: ltv_defs Let_def)
  have aggregator: "show_rev_of
        [\<lparr>user_id = ''U1'', sign_up_date = Some (days_from_civil 2024 1 3),
          last_active_date = Some (days_from_civil 2024 1 3), monthly_revenue = 10,
          attributed_show_id = Some ''S1'', lifetime_months = 1, ltv = 10\<rparr>]
        [\<lparr>show_id = ''S1'', title = t, genre = ''Drama'',
          release_date = Some (days_from_civil 2024 1 1), production_cost = 1000\<rparr>]
     = [\<lparr>sr_attributed_show_id = ''S1'', attributed_users = 1, total_revenue = 10,
         sr_show_id = Some ''S1'', sr_genre = Some ''Drama'',
         sr_production_cost = Some 1000, sr_title = Some t,
         roi = Num ((10 - 1000) / 1000)\<rparr>]"
    by (simp add: show_rev_defs Let_def)
  have "Num ((10 - 1000) / 1000) = Num (- 99 / 100)" by simp
  with resolver calculator aggregator show ?thesis by (simp only: simp_thms)
qed

text \<open>
  C3. Ratios with a zero denominator. A show with a cost of 0 and one attributed user of
  revenue 10: the ROI is (10 - 0) / 0, which the float division gives as plus infinity;
  in the genre table the cost per user is the number 0 and the LTV to CAC ratio is
  10 / 0, plus infinity again. Neither is the missing value that the guarded division by
  the user count would give.
\<close>

theorem zero_cost_ratios_are_infinite:
  "show_rev_of (compute_ltv [ex_user ''U1'' 12 12 10 (Some ''S1'')])
        [ex_show ''S1'' 10 0 ''Drama'']
     = [\<lparr>sr_attributed_show_id = ''S1'', attributed_users = 1, total_revenue = 10,
         sr_show_id = Some ''S1'', sr_genre = Some ''Drama'',
         sr_production_cost = Some 0, sr_title = Some [], roi = PInf\<rparr>]
   \<and> genre_fin_of (show_rev_of (compute_ltv [ex_user ''U1'' 12 12 10 (Some ''S1'')])
        [ex_show ''S1'' 10 0 ''Drama''])
     = [\<lparr>g_genre = ''Drama'', g_total_revenue = 10, total_prod_cost = 0,
         total_attributed_users = 1, cac_per_user = Num 0, ltv_per_user = Num 10,
         ltv_to_cac = PInf\<rparr>]"
proof -
  have l: "compute_ltv [ex_user ''U1'' 12 12 10 (Some ''S1'')]
     = [\<lparr>user_id = ''U1'', sign_up_date = Some 12, last_active_date = Some 12,
         monthly_revenue = 10, attributed_show_id = Some ''S1'',
         lifetime_months = 1, ltv = 10\<rparr>]"
    by (simp add: ltv_defs Let_def ex_user_def)
  have s: "show_rev_of (compute_ltv [ex_user ''U1'' 12 12 10 (Some ''S1'')])
        [ex_show ''S1'' 10 0 ''Drama'']
     = [\<lparr>sr_attributed_show_id = ''S1'', attributed_users = 1, total_revenue = 10,
         sr_show_id = Some ''S1'', sr_genre = Some ''Drama'',
         sr_production_cost = Some 0, sr_title = Some [], roi = PInf\<rparr>]"
    unfolding l by (simp add: show_rev_defs Let_def ex_show_def)
  show ?thesis unfolding s by (simp add: genre_fin_of_def replace0nan_def Let_def)
qed









section \<open>The sweep: the claim\<close>

lemma left_merge_map:
  "left_merge k (\<lambda>l c. h (mk l c)) left content = map h (left_merge k mk left content)"
  by (induction left) (simp_all add: left_merge_def Let_def comp_def)

lemma genre_fin_of_map:
  assumes "\<And>r. sr_genre (h r) = sr_genre r" "\<And>r. total_revenue (h r) = total_revenue r"
    "\<And>r. sr_production_cost (h r) = sr_production_cost r"
    "\<And>r. attributed_users (h r) = attributed_users r"
  shows "genre_fin_of (map h rows) = genre_fin_of rows"
  by (simp add: genre_fin_of_def filter_map comp_def assms Let_def)

lemma show_rev_columns_truncate:
  "show_rev_columns a c = show_rev_row.truncate (show_roi_columns a c)"
  by (simp add: show_rev_columns_def show_roi_columns_def show_rev_row.truncate_def Let_def)

lemma compute_genre_metrics_eq:
  "compute_genre_metrics users content = genre_fin_of (show_rev_of (compute_ltv users) content)"
proof -
  have "genre_fin_of (left_merge (\<lambda>a. Some (sa_attributed_show_id a)) show_rev_columns X content)
      = genre_fin_of (left_merge (\<lambda>a. Some (sa_attributed_show_id a)) show_roi_columns X content)" for X
    unfolding show_rev_columns_truncate left_merge_map
    by (rule genre_fin_of_map) (simp_all add: show_rev_row.truncate_def)
  then show ?thesis
    by (simp add: compute_genre_metrics_def show_rev_of_def enriched_of_def compute_ltv_def
        ltv_columns_def[abs_def] Let_def)
qed

lemma sweep_loop_eq:
  "sweep_loop content users ws rows =
     (users, rows @ concat (map (\<lambda>w. sweep_rows w
         (genre_fin_of (show_rev_of (compute_ltv (assign_last_touch content users w)) content))) ws))"
  by (induction ws arbitrary: rows) (simp_all add: compute_genre_metrics_eq Let_def)

lemma window_sweep_rows: "map window (sweep_rows w g) = [w, w]"
  by (simp add: sweep_rows_def Let_def)

text \<open>
  C5. Every sweep point is computed from scratch. The loop leaves the ledger as it was
  and adds, for each window of its list in turn, the rows of the two genres read from
  the genre table of the resolver, the LTV calculator and the aggregator run on the
  original ledger with that window. For the windows 3, 7 and 14 of \<^verbatim>\<open>main\<close> the rows
  come in ascending order of the window.
\<close>

theorem sweep_from_scratch:
  "sweep_loop content users ws rows =
     (users, rows @ concat (map (\<lambda>w. sweep_rows w
         (genre_fin_of (show_rev_of (compute_ltv (assign_last_touch content users w)) content))) ws))
   \<and> sensitivity_main content users =
       concat (map (\<lambda>w. sweep_rows w
         (genre_fin_of (show_rev_of (compute_ltv (assign_last_touch content users w)) content)))
         [3, 7, 14])
   \<and> map window (sensitivity_main content users) = [3, 3, 7, 7, 14, 14]
   \<and> sorted (map window (sensitivity_main content users))"
proof -
  have main: "sensitivity_main content users =
       concat (map (\<lambda>w. sweep_rows w
         (genre_fin_of (show_rev_of (compute_ltv (assign_last_touch content users w)) content)))
         [3, 7, 14])"
    by (simp add: sensitivity_main_def windows_def sweep_loop_eq)
  have win: "map window (sensitivity_main content users) = [3, 3, 7, 7, 14, 14]"
    unfolding main by (simp add: window_sweep_rows)
  show ?thesis using main win by (simp add: sweep_loop_eq)
qed

end
